theory Spec2Isabelle
  imports Complex_Main
begin

section \<open>Arrays and floating-point results\<close>

text \<open>
  The notebooks compute with numpy arrays of floats. Arithmetic is modelled over the
  reals. A result that numpy reports as \<open>nan\<close> or \<open>inf\<close> (a mean of no values, a
  division by zero) is the value \<open>None\<close> of \<open>real option\<close>; it spreads through every
  later operation, as \<open>nan\<close> does. A row of an array of shape \<open>(N, 3)\<close> is a triple.
\<close>

type_synonym npfloat = "real option"

type_synonym vec3 = "real \<times> real \<times> real"

datatype py_error = ZeroDivisionError | IndexError | NameError | ValueError | ShapesDiffer

definition vx :: "vec3 \<Rightarrow> real" where
  "vx v = fst v"

definition vy :: "vec3 \<Rightarrow> real" where
  "vy v = fst (snd v)"

definition vz :: "vec3 \<Rightarrow> real" where
  "vz v = snd (snd v)"

definition vsub :: "vec3 \<Rightarrow> vec3 \<Rightarrow> vec3" where
  "vsub a b = (vx a - vx b, vy a - vy b, vz a - vz b)"

text \<open>\<open>numpy.sum(v**2)\<close> along a row, and \<open>numpy.linalg.norm\<close> of a row.\<close>

definition sumsq :: "vec3 \<Rightarrow> real" where
  "sumsq v = (vx v)\<^sup>2 + (vy v)\<^sup>2 + (vz v)\<^sup>2"

definition vnorm :: "vec3 \<Rightarrow> real" where
  "vnorm v = sqrt (sumsq v)"

text \<open>\<open>numpy.mean\<close> of a one-dimensional array: \<open>nan\<close> for the empty array.\<close>

definition np_mean :: "real list \<Rightarrow> npfloat" where
  "np_mean xs = (if xs = [] then None else Some (sum_list xs / real (length xs)))"

text \<open>Division of floats by a float: \<open>inf\<close> or \<open>nan\<close> when the divisor is zero.\<close>

definition np_div :: "real \<Rightarrow> real \<Rightarrow> npfloat" where
  "np_div a b = (if b = 0 then None else Some (a / b))"

text \<open>\<open>numpy.mean(a, axis=0)\<close> of an array of shape \<open>(N, 3)\<close>: the mean of each column.\<close>

definition np_mean_axis0 :: "vec3 list \<Rightarrow> vec3 option" where
  "np_mean_axis0 vs =
     (if vs = [] then None
      else Some (sum_list (map vx vs) / real (length vs),
                 sum_list (map vy vs) / real (length vs),
                 sum_list (map vz vs) / real (length vs)))"

definition np_sum_axis0 :: "vec3 list \<Rightarrow> vec3" where
  "np_sum_axis0 vs = (sum_list (map vx vs), sum_list (map vy vs), sum_list (map vz vs))"


section \<open>MPCD introduction: initial velocities\<close>

text \<open>
  \<^verbatim>\<open>
  velocity = rng.normal(0.0, numpy.sqrt(kT / mass), (snapshot.mpcd.N, 3))
  velocity -= numpy.mean(velocity, axis=0)
  snapshot.mpcd.velocity[:] = velocity
  \<close>
  The drawn array is the argument. With no particles the mean is \<open>nan\<close> and the
  subtraction runs over no rows.
\<close>

definition init_velocity :: "vec3 list \<Rightarrow> vec3 list" where
  "init_velocity velocity =
     (case np_mean_axis0 velocity of
        None \<Rightarrow> velocity
      | Some m \<Rightarrow> map (\<lambda>v. vsub v m) velocity)"


section \<open>Viscosity fit\<close>

text \<open>
  \<^verbatim>\<open>
  def line(y, mu):
      return -(density * fx / mu) * y
  popt, pcov = scipy.optimize.curve_fit(line, y, dux_dy)
  \<close>
  \<open>density\<close> and \<open>fx\<close> are globals of the notebook (\<open>density = 5\<close>, \<open>fx = 0.004\<close>);
  the model takes them as arguments. A zero \<open>mu\<close> gives no finite value.
\<close>

definition density :: real where
  "density = 5"

definition fx :: real where
  "fx = 4 / 1000"

definition line :: "real \<Rightarrow> real \<Rightarrow> real \<Rightarrow> real \<Rightarrow> npfloat" where
  "line dens f y mu = (if mu = 0 then None else Some (- (dens * f / mu) * y))"

text \<open>
  The signature of \<open>line\<close>, and what \<open>curve_fit\<close> fits when no initial guess is given:
  every argument of the model function after the independent variable.
\<close>

definition line_args :: "string list" where
  "line_args = [''y'', ''mu'']"

definition free_parameters :: "string list \<Rightarrow> string list" where
  "free_parameters args = tl args"


section \<open>Energy conservation\<close>

text \<open>
  \<^verbatim>\<open>
  dev = tot_e - np.mean(tot_e)
  yval = np.sqrt(dev**2) / np.mean(tot_e)
  \<close>
  The series \<open>tot_e\<close> is left to the reader of the notebook; it is the argument.
\<close>

definition yval :: "real list \<Rightarrow> npfloat list" where
  "yval tot_e =
     map (\<lambda>e. case np_mean tot_e of
                 None \<Rightarrow> None
               | Some m \<Rightarrow> np_div (sqrt ((e - m)\<^sup>2)) m) tot_e"

text \<open>The absolute relative deviation \<open>|E(t) - Ebar| / Ebar\<close>, point by point.\<close>

definition abs_rel_dev :: "real list \<Rightarrow> npfloat list" where
  "abs_rel_dev tot_e =
     map (\<lambda>e. case np_mean tot_e of
                 None \<Rightarrow> None
               | Some m \<Rightarrow> np_div \<bar>e - m\<bar> m) tot_e"


section \<open>Block averaging\<close>

text \<open>
  \<^verbatim>\<open>
  def block_average(data, num_blocks=3):
      traj_length = len(data)
      block_size = traj_length // num_blocks
      blocks = data[:num_blocks * block_size].reshape((num_blocks, block_size))
      block_means = np.mean(blocks, axis=1)
      mean = np.mean(block_means)
      std_error = np.std(block_means, ddof=1) / np.sqrt(num_blocks)
      return mean, std_error
  \<close>
  \<open>reshape\<close> cuts a flat array into rows, and raises when the sizes do not fit.
\<close>

fun reshape_rows :: "nat \<Rightarrow> nat \<Rightarrow> 'a list \<Rightarrow> 'a list list" where
  "reshape_rows 0 cols xs = []"
| "reshape_rows (Suc n) cols xs = take cols xs # reshape_rows n cols (drop cols xs)"

definition np_reshape :: "'a list \<Rightarrow> nat \<Rightarrow> nat \<Rightarrow> py_error + 'a list list" where
  "np_reshape xs rows cols =
     (if length xs = rows * cols then Inr (reshape_rows rows cols xs) else Inl ValueError)"

text \<open>The values of an array of floats, when none of them is \<open>nan\<close>.\<close>

fun finite_values :: "npfloat list \<Rightarrow> real list option" where
  "finite_values [] = Some []"
| "finite_values (x # xs) =
     (case x of
        None \<Rightarrow> None
      | Some v \<Rightarrow> (case finite_values xs of None \<Rightarrow> None | Some vs \<Rightarrow> Some (v # vs)))"

definition np_mean_f :: "npfloat list \<Rightarrow> npfloat" where
  "np_mean_f xs = (case finite_values xs of None \<Rightarrow> None | Some vs \<Rightarrow> np_mean vs)"

text \<open>
  \<open>np.std(x, ddof=1)\<close>: the square root of the sum of the squared deviations from the
  mean over \<open>N - 1\<close>; \<open>nan\<close> for fewer than two values.
\<close>

definition np_std_ddof1 :: "npfloat list \<Rightarrow> npfloat" where
  "np_std_ddof1 xs =
     (case finite_values xs of
        None \<Rightarrow> None
      | Some vs \<Rightarrow>
          (case np_mean vs of
             None \<Rightarrow> None
           | Some m \<Rightarrow>
               map_option sqrt
                 (np_div (sum_list (map (\<lambda>v. \<bar>v - m\<bar>\<^sup>2) vs)) (real (length vs) - 1))))"

definition block_average :: "real list \<Rightarrow> nat \<Rightarrow> py_error + (npfloat \<times> npfloat)" where
  "block_average data num_blocks =
     (if num_blocks = 0 then Inl ZeroDivisionError
      else
        let traj_length = length data;
            block_size = traj_length div num_blocks
        in case np_reshape (take (num_blocks * block_size) data) num_blocks block_size of
             Inl e \<Rightarrow> Inl e
           | Inr blocks \<Rightarrow>
               let block_means = map np_mean blocks;
                   mean = np_mean_f block_means;
                   std_error =
                     (case np_std_ddof1 block_means of
                        None \<Rightarrow> None
                      | Some s \<Rightarrow> np_div s (sqrt (real num_blocks)))
               in Inr (mean, std_error))"

text \<open>
  The description to compare with: block \<open>i\<close> holds the \<open>block_size\<close> consecutive
  elements from index \<open>i * block_size\<close> on; the mean of a list; the sample standard
  deviation (\<open>N - 1\<close> in the denominator).
\<close>

definition consecutive_block :: "real list \<Rightarrow> nat \<Rightarrow> nat \<Rightarrow> real list" where
  "consecutive_block data block_size i = map (\<lambda>j. data ! (i * block_size + j)) [0..<block_size]"

definition arith_mean :: "real list \<Rightarrow> real" where
  "arith_mean xs = sum_list xs / real (length xs)"

definition block_means_of :: "real list \<Rightarrow> nat \<Rightarrow> real list" where
  "block_means_of data num_blocks =
     map (\<lambda>i. arith_mean (consecutive_block data (length data div num_blocks) i)) [0..<num_blocks]"

definition sample_std :: "real list \<Rightarrow> real" where
  "sample_std xs =
     sqrt (sum_list (map (\<lambda>x. (x - arith_mean xs)\<^sup>2) xs) / (real (length xs) - 1))"


section \<open>Rendering a frame: the bond filter\<close>

text \<open>
  A trajectory frame, with the fields the notebooks read. The box of a frame is the
  array \<open>[Lx, Ly, Lz, xy, xz, yz]\<close>; \<open>box[0]\<close> is \<open>Lx\<close>. Bond groups hold unsigned
  particle indices.
\<close>

record box6 =
  Lx :: real
  Ly :: real
  Lz :: real
  xy :: real
  xz :: real
  yz :: real

record frame =
  particles_N :: nat
  particles_position :: "vec3 list"
  bonds_N :: nat
  bonds_group :: "(nat \<times> nat) list"
  configuration_box :: box6

text \<open>Indexing an array of rows with an array of indices: \<open>position[idx]\<close>.\<close>

definition take_rows :: "'a list \<Rightarrow> nat list \<Rightarrow> py_error + 'a list" where
  "take_rows rows idx =
     (if list_all (\<lambda>i. i < length rows) idx then Inr (map (\<lambda>i. rows ! i) idx)
      else Inl IndexError)"

text \<open>
  \<^verbatim>\<open>
  if frame.bonds.N>0:
      all_bonds = numpy.stack(
      [ frame.particles.position[frame.bonds.group[:, 0]],
        frame.particles.position[frame.bonds.group[:, 1]], ], axis=1)
      # Use a distance cutoff (L/2) to filter bonds that span the periodic boundary
      bond_distances = numpy.linalg.norm(all_bonds[:,0,:]-all_bonds[:,1,:], axis=1)
      L = frame.configuration.box[0]
      bond_indices = numpy.where(bond_distances < L/2)[0]
      filtered_bonds = all_bonds[bond_indices, :, :]
      bonds = fresnel.geometry.Cylinder(scene, N=len(filtered_bonds))
      bonds.points[:] = filtered_bonds
  \<close>
  \<open>render_bonds\<close> is this part of \<open>render\<close>: the end points of the cylinders put into the
  scene, \<open>None\<close> when no cylinder geometry is created. The spheres, the camera and the
  image are the rendering library's.
\<close>

definition render_bonds :: "frame \<Rightarrow> py_error + (vec3 \<times> vec3) list option" where
  "render_bonds frame =
     (if 0 < bonds_N frame then
        case take_rows (particles_position frame) (map fst (bonds_group frame)) of
          Inl e \<Rightarrow> Inl e
        | Inr ends0 \<Rightarrow>
            (case take_rows (particles_position frame) (map snd (bonds_group frame)) of
               Inl e \<Rightarrow> Inl e
             | Inr ends1 \<Rightarrow>
                 let all_bonds = zip ends0 ends1;
                     bond_distances = map (\<lambda>(a, b). vnorm (vsub a b)) all_bonds;
                     L = Lx (configuration_box frame);
                     bond_indices =
                       filter (\<lambda>k. bond_distances ! k < L / 2) [0..<length bond_distances];
                     filtered_bonds = map (\<lambda>k. all_bonds ! k) bond_indices
                 in Inr (Some filtered_bonds))
      else Inr None)"

text \<open>The Euclidean distance between the stored positions of the two particles of a bond.\<close>

definition bond_length :: "frame \<Rightarrow> nat \<times> nat \<Rightarrow> real" where
  "bond_length frame b =
     vnorm (vsub (particles_position frame ! fst b) (particles_position frame ! snd b))"

definition bond_ends :: "frame \<Rightarrow> nat \<times> nat \<Rightarrow> vec3 \<times> vec3" where
  "bond_ends frame b = (particles_position frame ! fst b, particles_position frame ! snd b)"

text \<open>A frame with three particles and two bonds, in a cubic box of side 10.\<close>

definition example_frame :: frame where
  "example_frame =
     \<lparr>particles_N = 3, particles_position = [(0, 0, 0), (3, 4, 0), (-4, 0, 0)],
      bonds_N = 2, bonds_group = [(0, 1), (0, 2)],
      configuration_box = \<lparr>Lx = 10, Ly = 10, Lz = 10, xy = 0, xz = 0, yz = 0\<rparr>\<rparr>"


section \<open>The simulation engine\<close>

text \<open>
  The engine that integrates the particles is external; the notebooks drive it through
  \<open>simulation.run(steps)\<close> and read it through \<open>simulation.state.get_snapshot()\<close>,
  \<open>integrator.dt\<close> and \<open>velocity_field.velocities\<close>. It is a parameter of the model: a
  state type \<open>'s\<close>, a transition for \<open>run\<close>, and functions of the state for the reads.
\<close>

record snapshot =
  mpcd_position :: "vec3 list"
  snapshot_box :: box6

text \<open>An array of any shape: the shape and the elements in row-major order.\<close>

record ndarray =
  shape :: "nat list"
  flat :: "real list"

record 's engine =
  run :: "int \<Rightarrow> 's \<Rightarrow> 's"
  get_snapshot :: "'s \<Rightarrow> snapshot"
  integrator_dt :: real
  velocity_field_velocities :: "'s \<Rightarrow> ndarray"


section \<open>Averaging the velocity field\<close>

text \<open>
  \<^verbatim>\<open>
  num_samples = 1000
  num_steps_per_sample = 10
  for i in range(num_samples):
      simulation.run(num_steps_per_sample)
      # size the array the first time
      if i == 0:
          avg_velocity_field = numpy.zeros(velocity_field.velocities.shape)
      # accumulate x velocity
      avg_velocity_field += velocity_field.velocities
  avg_velocity_field /= num_samples
  \<close>
  The number of samples is the argument of the model. \<open>avg_velocity_field\<close> is not
  bound before the loop: it is \<open>None\<close> until the first iteration assigns it, and using it
  unbound raises \<open>NameError\<close>. Adding an array of another shape in place is not modelled
  further (numpy raises or broadcasts): it is the outcome \<open>ShapesDiffer\<close>.
\<close>

definition num_steps_per_sample :: int where
  "num_steps_per_sample = 10"

definition np_zeros :: "nat list \<Rightarrow> ndarray" where
  "np_zeros sh = \<lparr>shape = sh, flat = replicate (prod_list sh) 0\<rparr>"

definition np_iadd :: "ndarray \<Rightarrow> ndarray \<Rightarrow> py_error + ndarray" where
  "np_iadd a b =
     (if shape a = shape b then Inr (a\<lparr>flat := map2 (+) (flat a) (flat b)\<rparr>)
      else Inl ShapesDiffer)"

fun velocity_loop ::
  "'s engine \<Rightarrow> nat \<Rightarrow> nat \<Rightarrow> ndarray option \<Rightarrow> 's \<Rightarrow> py_error + (ndarray option \<times> 's)" where
  "velocity_loop E 0 i avg_velocity_field s = Inr (avg_velocity_field, s)"
| "velocity_loop E (Suc remaining) i avg_velocity_field s =
     (let s' = run E num_steps_per_sample s;
          avg = (if i = 0 then Some (np_zeros (shape (velocity_field_velocities E s')))
                 else avg_velocity_field)
      in case avg of
           None \<Rightarrow> Inl NameError
         | Some a \<Rightarrow>
             (case np_iadd a (velocity_field_velocities E s') of
                Inl e \<Rightarrow> Inl e
              | Inr a' \<Rightarrow> velocity_loop E remaining (Suc i) (Some a') s'))"

definition average_velocity_field :: "'s engine \<Rightarrow> nat \<Rightarrow> 's \<Rightarrow> py_error + (ndarray \<times> 's)" where
  "average_velocity_field E num_samples s =
     (case velocity_loop E num_samples 0 None s of
        Inl e \<Rightarrow> Inl e
      | Inr (avg_velocity_field, s') \<Rightarrow>
          (case avg_velocity_field of
             None \<Rightarrow> Inl NameError
           | Some a \<Rightarrow> Inr (a\<lparr>flat := map (\<lambda>x. x / real num_samples) (flat a)\<rparr>, s')))"

text \<open>
  The description to compare with: the \<open>k\<close>-th sampled array (\<open>k = 1, 2, ...\<close>) is the
  velocity field after \<open>k\<close> calls of \<open>run\<close>; the arithmetic mean of a list of arrays is
  their element-wise sum over their number.
\<close>

definition sampled_field :: "'s engine \<Rightarrow> 's \<Rightarrow> nat \<Rightarrow> ndarray" where
  "sampled_field E s k = velocity_field_velocities E ((run E num_steps_per_sample ^^ k) s)"

definition samples :: "'s engine \<Rightarrow> 's \<Rightarrow> nat \<Rightarrow> ndarray list" where
  "samples E s num_samples = map (sampled_field E s) [1..<Suc num_samples]"

definition elementwise_mean :: "ndarray list \<Rightarrow> real list" where
  "elementwise_mean arrays =
     map (\<lambda>j. sum_list (map (\<lambda>a. flat a ! j) arrays) / real (length arrays))
       [0..<length (flat (hd arrays))]"

definition well_shaped :: "ndarray \<Rightarrow> bool" where
  "well_shaped a \<longleftrightarrow> length (flat a) = prod_list (shape a)"

definition same_shapes :: "ndarray list \<Rightarrow> bool" where
  "same_shapes arrays \<longleftrightarrow> list_all (\<lambda>a. well_shaped a \<and> shape a = shape (hd arrays)) arrays"


section \<open>Measuring the diffusion coefficient\<close>

text \<open>
  \<^verbatim>\<open>
  num_samples = 10
  wait_time = 2
  sample_time = 2
  D = numpy.zeros(num_samples)
  for i in range(num_samples):
      # save initial position of particles
      snapshot = simulation.state.get_snapshot()
      r0 = numpy.array(snapshot.mpcd.position)
      # run forward 1 time unit and store
      simulation.run(numpy.round(wait_time / integrator.dt).astype(int))
      snapshot = simulation.state.get_snapshot()
      r1 = numpy.array(snapshot.mpcd.position)
      box = freud.box.Box.from_box(snapshot.configuration.box)
      dr = box.wrap(r1 - r0)
      msd1 = numpy.mean(numpy.sum(dr**2, axis=1))
      # run another time unit and store
      simulation.run(numpy.round(sample_time / integrator.dt).astype(int))
      snapshot = simulation.state.get_snapshot()
      r2 = numpy.array(snapshot.mpcd.position)
      box = freud.box.Box.from_box(snapshot.configuration.box)
      dr = box.wrap(r2 - r0)
      msd2 = numpy.mean(numpy.sum(dr**2, axis=1))
      D[i] = (msd2 - msd1) / (6 * sample_time)
  D_sim = numpy.mean(D)
  \<close>
  The number of samples is the argument of the model. The wrapping of a displacement
  into the periodic box is the box library's; it is the parameter \<open>wrap\<close>, applied row
  by row. Subtracting arrays with different numbers of rows is not modelled further
  (numpy raises or broadcasts): it is the outcome \<open>ShapesDiffer\<close>. The standard error
  \<open>scipy.stats.sem(D)\<close> that the cell prints is the statistics library's and is left out.
\<close>

definition wait_time :: real where
  "wait_time = 2"

definition sample_time :: real where
  "sample_time = 2"

text \<open>\<open>numpy.round\<close> rounds to the nearest integer, a half to the even neighbour.\<close>

definition np_round :: "real \<Rightarrow> int" where
  "np_round x =
     (let f = \<lfloor>x\<rfloor>; r = x - of_int f
      in if r < 1 / 2 then f
         else if 1 / 2 < r then f + 1
         else if even f then f else f + 1)"

text \<open>\<open>numpy.round(t / integrator.dt).astype(int)\<close>; the quotient is of Python numbers.\<close>

definition num_steps :: "real \<Rightarrow> real \<Rightarrow> py_error + int" where
  "num_steps t dt = (if dt = 0 then Inl ZeroDivisionError else Inr (np_round (t / dt)))"

definition np_sub_rows :: "vec3 list \<Rightarrow> vec3 list \<Rightarrow> py_error + vec3 list" where
  "np_sub_rows a b =
     (if length a = length b then Inr (map2 vsub a b) else Inl ShapesDiffer)"

definition np_fsub :: "npfloat \<Rightarrow> npfloat \<Rightarrow> npfloat" where
  "np_fsub a b = (case a of None \<Rightarrow> None | Some x \<Rightarrow> (case b of None \<Rightarrow> None | Some y \<Rightarrow> Some (x - y)))"

definition np_fdiv :: "npfloat \<Rightarrow> real \<Rightarrow> npfloat" where
  "np_fdiv a c = (case a of None \<Rightarrow> None | Some x \<Rightarrow> np_div x c)"

text \<open>The body of the loop: the sample \<open>D[i]\<close> and the state of the engine after it.\<close>

definition diffusion_sample ::
  "(box6 \<Rightarrow> vec3 \<Rightarrow> vec3) \<Rightarrow> 's engine \<Rightarrow> 's \<Rightarrow> py_error + (npfloat \<times> 's)" where
  "diffusion_sample wrap E s =
     (let snapshot = get_snapshot E s;
          r0 = mpcd_position snapshot
      in case num_steps wait_time (integrator_dt E) of
           Inl e \<Rightarrow> Inl e
         | Inr n1 \<Rightarrow>
             let s1 = run E n1 s;
                 snapshot = get_snapshot E s1;
                 r1 = mpcd_position snapshot;
                 box = snapshot_box snapshot
             in (case np_sub_rows r1 r0 of
                   Inl e \<Rightarrow> Inl e
                 | Inr d1 \<Rightarrow>
                     let dr = map (wrap box) d1;
                         msd1 = np_mean (map sumsq dr)
                     in (case num_steps sample_time (integrator_dt E) of
                           Inl e \<Rightarrow> Inl e
                         | Inr n2 \<Rightarrow>
                             let s2 = run E n2 s1;
                                 snapshot = get_snapshot E s2;
                                 r2 = mpcd_position snapshot;
                                 box = snapshot_box snapshot
                             in (case np_sub_rows r2 r0 of
                                   Inl e \<Rightarrow> Inl e
                                 | Inr d2 \<Rightarrow>
                                     let dr = map (wrap box) d2;
                                         msd2 = np_mean (map sumsq dr)
                                     in Inr (np_fdiv (np_fsub msd2 msd1) (6 * sample_time),
                                             s2)))))"

text \<open>
  The loop, with the number of iterations still to run, the index \<open>i\<close>, the array \<open>D\<close>
  and the state of the engine. The index stays below the length of \<open>D\<close>.
\<close>

fun diffusion_loop ::
  "(box6 \<Rightarrow> vec3 \<Rightarrow> vec3) \<Rightarrow> 's engine \<Rightarrow> nat \<Rightarrow> nat \<Rightarrow> npfloat list \<Rightarrow> 's
   \<Rightarrow> py_error + (npfloat list \<times> 's)" where
  "diffusion_loop wrap E 0 i D s = Inr (D, s)"
| "diffusion_loop wrap E (Suc remaining) i D s =
     (case diffusion_sample wrap E s of
        Inl e \<Rightarrow> Inl e
      | Inr (d, s') \<Rightarrow> diffusion_loop wrap E remaining (Suc i) (D[i := d]) s')"

text \<open>The cell: the array \<open>D\<close>, \<open>D_sim\<close>, and the state of the engine at the end.\<close>

definition measure_diffusion ::
  "(box6 \<Rightarrow> vec3 \<Rightarrow> vec3) \<Rightarrow> 's engine \<Rightarrow> nat \<Rightarrow> 's
   \<Rightarrow> py_error + (npfloat list \<times> npfloat \<times> 's)" where
  "measure_diffusion wrap E num_samples s =
     (case diffusion_loop wrap E num_samples 0 (replicate num_samples (Some 0)) s of
        Inl e \<Rightarrow> Inl e
      | Inr (D, s') \<Rightarrow> Inr (D, np_mean_f D, s'))"

text \<open>
  The description to compare with. A sample starts in the state reached after the
  samples before it; each sample runs the engine for the waiting time and then for
  the sampling time. The mean squared displacement is the mean over the particles of
  the squared wrapped displacement from the positions at the start of the sample.
\<close>

definition wait_steps :: "'s engine \<Rightarrow> int" where
  "wait_steps E = np_round (wait_time / integrator_dt E)"

definition sample_steps :: "'s engine \<Rightarrow> int" where
  "sample_steps E = np_round (sample_time / integrator_dt E)"

definition sample_start :: "'s engine \<Rightarrow> 's \<Rightarrow> nat \<Rightarrow> 's" where
  "sample_start E s i = ((\<lambda>t. run E (sample_steps E) (run E (wait_steps E) t)) ^^ i) s"

definition msd :: "(box6 \<Rightarrow> vec3 \<Rightarrow> vec3) \<Rightarrow> snapshot \<Rightarrow> vec3 list \<Rightarrow> real" where
  "msd wrap snap r0 =
     arith_mean
       (map (\<lambda>j. sumsq (wrap (snapshot_box snap) (vsub (mpcd_position snap ! j) (r0 ! j))))
          [0..<length r0])"

definition D_sample :: "(box6 \<Rightarrow> vec3 \<Rightarrow> vec3) \<Rightarrow> 's engine \<Rightarrow> 's \<Rightarrow> real" where
  "D_sample wrap E t0 =
     (let r0 = mpcd_position (get_snapshot E t0);
          t1 = run E (wait_steps E) t0;
          t2 = run E (sample_steps E) t1;
          msd1 = msd wrap (get_snapshot E t1) r0;
          msd2 = msd wrap (get_snapshot E t2) r0
      in (msd2 - msd1) / (6 * sample_time))"

text \<open>The engine keeps the number of particles.\<close>

definition keeps_particles :: "'s engine \<Rightarrow> bool" where
  "keeps_particles E \<longleftrightarrow>
     (\<forall>k t. length (mpcd_position (get_snapshot E (run E k t))) =
            length (mpcd_position (get_snapshot E t)))"


section \<open>An engine to compute with\<close>

text \<open>
  A small engine for evaluating the loops: its state is a step counter, two particles
  move along the axes, and the velocity field has two entries.
\<close>

definition toy_engine :: "nat engine" where
  "toy_engine =
     \<lparr>run = (\<lambda>steps t. t + nat steps),
      get_snapshot = (\<lambda>t.
        \<lparr>mpcd_position = [(real t, 0, 0), (0, 2 * real t, 0)],
         snapshot_box = \<lparr>Lx = 100, Ly = 100, Lz = 100, xy = 0, xz = 0, yz = 0\<rparr>\<rparr>),
      integrator_dt = 1,
      velocity_field_velocities = (\<lambda>t. \<lparr>shape = [2], flat = [real t, 1]\<rparr>)\<rparr>"


section \<open>Theorems\<close>

subsection \<open>Helper lemmas\<close>

lemma sum_list_map_diff_const:
  fixes c :: real
  shows "sum_list (map (\<lambda>x. f x - c) xs) = sum_list (map f xs) - real (length xs) * c"
  by (induction xs) (simp_all add: algebra_simps)

lemma sum_list_centered:
  fixes f :: "'a \<Rightarrow> real"
  assumes "xs \<noteq> []"
  shows "sum_list (map (\<lambda>x. f x - sum_list (map f xs) / real (length xs)) xs) = 0"
  using assms by (simp add: sum_list_map_diff_const)

lemma vx_vsub [simp]: "vx (vsub a b) = vx a - vx b"
  by (simp add: vsub_def vx_def)

lemma vy_vsub [simp]: "vy (vsub a b) = vy a - vy b"
  by (simp add: vsub_def vy_def vx_def)

lemma vz_vsub [simp]: "vz (vsub a b) = vz a - vz b"
  by (simp add: vsub_def vz_def vy_def vx_def)

lemma vx_triple [simp]: "vx (a, b, c) = a"
  by (simp add: vx_def)

lemma vy_triple [simp]: "vy (a, b, c) = b"
  by (simp add: vy_def)

lemma vz_triple [simp]: "vz (a, b, c) = c"
  by (simp add: vz_def)


subsection \<open>C10: the initial velocities carry no net momentum\<close>

text \<open>
  C10. After the per-component mean is subtracted from the drawn velocities, for every
  number of particles \<open>N \<ge> 1\<close> and every drawn array, the component-wise sum and the
  component-wise mean of the velocities assigned to the snapshot are exactly zero (in
  exact arithmetic); the number of particles is unchanged.
\<close>

theorem init_velocity_zero_momentum:
  assumes "velocity \<noteq> []"
  shows "np_sum_axis0 (init_velocity velocity) = (0, 0, 0)
       \<and> np_mean_axis0 (init_velocity velocity) = Some (0, 0, 0)
       \<and> length (init_velocity velocity) = length velocity"
proof -
  let ?n = "real (length velocity)"
  let ?m = "(sum_list (map vx velocity) / ?n, sum_list (map vy velocity) / ?n,
             sum_list (map vz velocity) / ?n)"
  have iv: "init_velocity velocity = map (\<lambda>v. vsub v ?m) velocity"
    using assms by (simp add: init_velocity_def np_mean_axis0_def)
  have sx: "sum_list (map vx (init_velocity velocity)) = 0"
    using sum_list_centered [OF assms, of vx] by (simp add: iv comp_def)
  have sy: "sum_list (map vy (init_velocity velocity)) = 0"
    using sum_list_centered [OF assms, of vy] by (simp add: iv comp_def)
  have sz: "sum_list (map vz (init_velocity velocity)) = 0"
    using sum_list_centered [OF assms, of vz] by (simp add: iv comp_def)
  have len: "length (init_velocity velocity) = length velocity"
    by (simp add: iv)
  have ne: "init_velocity velocity \<noteq> []"
    using assms len by (metis length_0_conv)
  show ?thesis
    using sx sy sz len ne by (simp add: np_sum_axis0_def np_mean_axis0_def)
qed

theorem init_velocity_zero_momentum_witness:
  "[(1, 2, 3), (3, 0, -1)] \<noteq> ([] :: vec3 list)
   \<and> np_sum_axis0 (init_velocity [(1, 2, 3), (3, 0, -1)]) = (0, 0, 0)
   \<and> init_velocity [(1, 2, 3), (3, 0, -1)] = [(-1, 1, 2), (1, -1, -2)]"
proof -
  have h: "[(1, 2, 3), (3, 0, -1)] \<noteq> ([] :: vec3 list)" by simp
  have v: "init_velocity [(1, 2, 3), (3, 0, -1)] = [(-1, 1, 2), (1, -1, -2)]"
    by (simp add: init_velocity_def np_mean_axis0_def vsub_def)
  show ?thesis
    using init_velocity_zero_momentum [OF h] h v by simp
qed


subsection \<open>C6: the viscosity fit model\<close>

text \<open>
  C6. The fit model is a one-parameter line through the origin: for every \<open>y\<close> and every
  \<open>mu \<noteq> 0\<close>, \<open>line(y, mu) = -(density * fx / mu) * y\<close>; hence \<open>line(0, mu) = 0\<close>, and
  \<open>line\<close> is odd in \<open>y\<close>; \<open>mu\<close> is the only free parameter handed to the curve fit.
\<close>

theorem line_through_origin:
  assumes "mu \<noteq> 0"
  shows "line dens f y mu = Some (- (dens * f / mu) * y)
       \<and> line dens f 0 mu = Some 0
       \<and> line dens f (- y) mu = map_option uminus (line dens f y mu)
       \<and> free_parameters line_args = [''mu'']"
  using assms by (simp add: line_def free_parameters_def line_args_def)

theorem line_through_origin_witness:
  "(2::real) \<noteq> 0
   \<and> line density fx 3 2 = Some (- (3 / 100))
   \<and> line density fx 0 2 = Some 0
   \<and> line density fx (- 3) 2 = Some (3 / 100)"
proof -
  have h: "(2::real) \<noteq> 0" by simp
  have v: "- (density * fx / 2) * 3 = - (3 / 100)"
    by (simp add: density_def fx_def)
  show ?thesis
    using line_through_origin [OF h, of density fx 3] h v by simp
qed


subsection \<open>C9: the plotted energy deviation\<close>

text \<open>
  C9. For every total-energy series \<open>tot_e\<close>, the plotted
  \<open>yval = sqrt((tot_e - mean(tot_e))**2) / mean(tot_e)\<close> equals, element by element, the
  absolute relative deviation \<open>|E(t) - Ebar| / Ebar\<close>: one value per time point, each
  depending on its own \<open>E(t)\<close> and on the mean only.
\<close>

theorem yval_is_abs_rel_dev:
  "yval tot_e = abs_rel_dev tot_e \<and> length (yval tot_e) = length tot_e"
  by (simp add: yval_def abs_rel_dev_def split: option.splits)

text \<open>
  A series with mean 2: each point has its own deviation, so the plotted values differ
  from point to point.
\<close>

lemma yval_pointwise_example:
  "yval [1, 1, 4] = [Some (1 / 2), Some (1 / 2), Some 1]"
proof -
  have m: "np_mean [1, 1, 4] = Some 2" by (simp add: np_mean_def)
  have a: "sqrt ((1 - 2)\<^sup>2) = (1::real)" by simp
  have b: "sqrt ((4 - 2)\<^sup>2) = (2::real)" by simp
  show ?thesis
    unfolding yval_def m by (simp only: list.map option.case a b) (simp add: np_div_def)
qed


subsection \<open>C4: block averages\<close>

lemma reshape_rows_nth:
  "n * cols \<le> length xs \<Longrightarrow>
   reshape_rows n cols xs = map (\<lambda>i. map (\<lambda>j. xs ! (i * cols + j)) [0..<cols]) [0..<n]"
proof (induction n arbitrary: xs)
  case 0
  then show ?case by simp
next
  case (Suc n)
  have c: "cols \<le> length xs" using Suc.prems by simp
  have r: "n * cols \<le> length (drop cols xs)" using Suc.prems by simp
  have t: "take cols xs = map (\<lambda>j. xs ! j) [0..<cols]"
    using c by (simp add: list_eq_iff_nth_eq)
  have d: "reshape_rows n cols (drop cols xs) =
           map (\<lambda>i. map (\<lambda>j. xs ! (Suc i * cols + j)) [0..<cols]) [0..<n]"
    using Suc.IH [OF r] c by (simp add: add.assoc)
  show ?case
    by (simp add: t d map_upt_Suc del: upt_Suc)
qed

lemma finite_values_Some: "finite_values (map Some xs) = Some xs"
  by (induction xs) simp_all

lemma block_index_bound:
  fixes i j :: nat
  assumes "i < n" "j < b"
  shows "i * b + j < n * b"
proof -
  have "i * b + j < i * b + b" using assms by simp
  also have "\<dots> = Suc i * b" by simp
  also have "\<dots> \<le> n * b" using assms by (intro mult_le_mono1) simp
  finally show ?thesis .
qed

lemma blocks_of_prefix:
  assumes "num_blocks * block_size \<le> length data"
  shows "reshape_rows num_blocks block_size (take (num_blocks * block_size) data) =
         map (consecutive_block data block_size) [0..<num_blocks]"
proof -
  have "reshape_rows num_blocks block_size (take (num_blocks * block_size) data) =
        map (\<lambda>i. map (\<lambda>j. take (num_blocks * block_size) data ! (i * block_size + j))
                    [0..<block_size]) [0..<num_blocks]"
    using assms by (intro reshape_rows_nth) simp
  also have "\<dots> = map (consecutive_block data block_size) [0..<num_blocks]"
    by (simp add: consecutive_block_def block_index_bound)
  finally show ?thesis .
qed

lemma block_means_finite:
  assumes "0 < length data div num_blocks"
  shows "map np_mean (map (consecutive_block data (length data div num_blocks)) [0..<num_blocks])
         = map Some (block_means_of data num_blocks)"
  using assms
  by (simp add: block_means_of_def np_mean_def arith_mean_def consecutive_block_def)

lemma block_average_closed_form:
  assumes "1 \<le> num_blocks" and "num_blocks \<le> length data"
  shows "block_average data num_blocks =
           Inr (Some (arith_mean (block_means_of data num_blocks)),
                if num_blocks = 1 then None
                else Some (sample_std (block_means_of data num_blocks) / sqrt (real num_blocks)))"
proof -
  let ?bs = "length data div num_blocks"
  let ?bm = "block_means_of data num_blocks"
  have nb: "0 < num_blocks" using assms by simp
  have bs: "0 < ?bs" using assms by (simp add: div_greater_zero_iff)
  have le: "num_blocks * ?bs \<le> length data" by simp
  have len_bm: "length ?bm = num_blocks" by (simp add: block_means_of_def)
  have ne: "?bm \<noteq> []" using nb len_bm by auto
  have rs: "np_reshape (take (num_blocks * ?bs) data) num_blocks ?bs =
            Inr (map (consecutive_block data ?bs) [0..<num_blocks])"
    using le by (simp add: np_reshape_def blocks_of_prefix min_absorb2)
  have mean: "np_mean_f (map Some ?bm) = Some (arith_mean ?bm)"
    using ne by (simp add: np_mean_f_def finite_values_Some np_mean_def arith_mean_def)
  have std: "np_std_ddof1 (map Some ?bm) =
             (if num_blocks = 1 then None else Some (sample_std ?bm))"
    using ne nb len_bm
    by (simp add: np_std_ddof1_def finite_values_Some np_mean_def np_div_def sample_std_def
        arith_mean_def)
  have sq: "sqrt (real num_blocks) \<noteq> 0" using nb by simp
  show ?thesis
    using nb rs block_means_finite [OF bs] mean std sq
    by (simp add: block_average_def Let_def np_div_def)
qed

lemma block_average_prefix_only:
  assumes "length data' div num_blocks = length data div num_blocks"
    and "take (num_blocks * (length data div num_blocks)) data' =
         take (num_blocks * (length data div num_blocks)) data"
  shows "block_average data' num_blocks = block_average data num_blocks"
  using assms by (simp add: block_average_def)


text \<open>
  C4. For every one-dimensional \<open>data\<close> and every \<open>num_blocks\<close> with
  \<open>1 \<le> num_blocks \<le> len(data)\<close>, \<open>block_average\<close> returns the pair \<open>(m, se)\<close>: \<open>m\<close> is
  the mean of the means of the \<open>num_blocks\<close> consecutive blocks of size
  \<open>len(data) // num_blocks\<close> taken from the front, \<open>se\<close> is the sample standard deviation
  (\<open>ddof = 1\<close>) of those block means over the square root of \<open>num_blocks\<close> (which is \<open>nan\<close>
  for a single block, as numpy computes it); the elements after the last block do not
  affect the result.
\<close>

theorem block_average_correct:
  assumes "1 \<le> num_blocks" and "num_blocks \<le> length data"
  shows "block_average data num_blocks =
           Inr (Some (arith_mean (block_means_of data num_blocks)),
                if num_blocks = 1 then None
                else Some (sample_std (block_means_of data num_blocks) / sqrt (real num_blocks)))
       \<and> (\<forall>data'. length data' div num_blocks = length data div num_blocks
                \<and> take (num_blocks * (length data div num_blocks)) data' =
                    take (num_blocks * (length data div num_blocks)) data
                \<longrightarrow> block_average data' num_blocks = block_average data num_blocks)"
  using block_average_closed_form [OF assms] block_average_prefix_only by blast

lemma block_means_example: "block_means_of [1, 2, 3, 4, 5] 2 = [3 / 2, 7 / 2]"
proof -
  have l: "length [1, 2, 3, 4, 5 :: real] div 2 = 2" by simp
  have u: "[0..<2] = [0, Suc 0]" by (simp add: upt_conv_Cons)
  show ?thesis
    unfolding block_means_of_def l consecutive_block_def u
    by (simp add: arith_mean_def)
qed

lemma sample_std_example: "sample_std [3 / 2, 7 / 2] / sqrt 2 = 1"
  by (simp add: sample_std_def arith_mean_def power2_eq_square)

theorem block_average_correct_witness:
  "(1::nat) \<le> 2 \<and> 2 \<le> length [1, 2, 3, 4, 5 :: real]
   \<and> block_average [1, 2, 3, 4, 5] 2 = Inr (Some (5 / 2), Some 1)
   \<and> block_average [1, 2, 3, 4, 9] 2 = block_average [1, 2, 3, 4, 5] 2"
proof -
  have h1: "(1::nat) \<le> 2" by simp
  have h2: "2 \<le> length [1, 2, 3, 4, 5 :: real]" by simp
  have m: "arith_mean [3 / 2, 7 / 2] = 5 / 2" by (simp add: arith_mean_def)
  note t = block_average_correct [OF h1 h2]
  have a: "block_average [1, 2, 3, 4, 5] 2 = Inr (Some (5 / 2), Some 1)"
    using t by (simp add: block_means_example sample_std_example m)
  have b: "block_average [1, 2, 3, 4, 9] 2 = block_average [1, 2, 3, 4, 5] 2"
    using conjunct2 [OF t, rule_format, of "[1, 2, 3, 4, 9]"] by simp
  show ?thesis using h1 h2 a b by simp
qed


subsection \<open>C8: the bond filter of render\<close>

lemma filter_by_index:
  "map (\<lambda>k. xs ! k) (filter (\<lambda>k. P (xs ! k)) [0..<length xs]) = filter P xs"
proof (induction xs rule: rev_induct)
  case Nil
  then show ?case by simp
next
  case (snoc x xs)
  have "map (\<lambda>k. (xs @ [x]) ! k) (filter (\<lambda>k. P ((xs @ [x]) ! k)) [0..<length xs])
        = map (\<lambda>k. xs ! k) (filter (\<lambda>k. P (xs ! k)) [0..<length xs])"
    by (intro map_cong filter_cong refl) (auto simp: nth_append)
  then show ?case using snoc.IH by (simp add: nth_append)
qed

lemma filter_by_index_map:
  "map (\<lambda>k. xs ! k) (filter (\<lambda>k. map f xs ! k < c) [0..<length (map f xs)]) =
   filter (\<lambda>x. f x < c) xs"
proof -
  have "filter (\<lambda>k. map f xs ! k < c) [0..<length (map f xs)] =
        filter (\<lambda>k. f (xs ! k) < c) [0..<length xs]"
    by (intro filter_cong) auto
  then show ?thesis using filter_by_index [of xs "\<lambda>x. f x < c"] by simp
qed

lemma take_rows_ok:
  "\<forall>i\<in>set idx. i < length rows \<Longrightarrow> take_rows rows idx = Inr (map (\<lambda>i. rows ! i) idx)"
  by (simp add: take_rows_def list_all_iff)

lemma zip_bond_ends:
  "zip (map (\<lambda>i. pos ! i) (map fst g)) (map (\<lambda>i. pos ! i) (map snd g)) =
   map (\<lambda>b. (pos ! fst b, pos ! snd b)) g"
  by (induction g) simp_all

text \<open>
  C8. For every frame with \<open>frame.bonds.N > 0\<close> (and bond indices that name particles of
  the frame), \<open>render\<close> draws one cylinder for each bond \<open>(i, j)\<close> whose stored end
  positions are at a Euclidean distance strictly below \<open>L/2\<close>, \<open>L\<close> the first box
  dimension, in the order of the bond list, between those two positions; every bond
  whose end points are \<open>L/2\<close> or more apart is left out.
\<close>

theorem render_bonds_cutoff:
  assumes "0 < bonds_N frame"
    and "\<forall>b\<in>set (bonds_group frame).
           fst b < length (particles_position frame) \<and> snd b < length (particles_position frame)"
  shows "render_bonds frame =
           Inr (Some (map (bond_ends frame)
                  (filter (\<lambda>b. bond_length frame b < Lx (configuration_box frame) / 2)
                     (bonds_group frame))))"
proof -
  let ?pos = "particles_position frame"
  let ?g = "bonds_group frame"
  have r0: "take_rows ?pos (map fst ?g) = Inr (map (\<lambda>i. ?pos ! i) (map fst ?g))"
    using assms(2) by (intro take_rows_ok) auto
  have r1: "take_rows ?pos (map snd ?g) = Inr (map (\<lambda>i. ?pos ! i) (map snd ?g))"
    using assms(2) by (intro take_rows_ok) auto
  define ab where "ab = map (\<lambda>b. (?pos ! fst b, ?pos ! snd b)) ?g"
  define L where "L = Lx (configuration_box frame)"
  have rb: "render_bonds frame =
            Inr (Some (map (\<lambda>k. ab ! k)
              (filter (\<lambda>k. map (\<lambda>(a, b). vnorm (vsub a b)) ab ! k < L / 2)
                 [0..<length (map (\<lambda>(a, b). vnorm (vsub a b)) ab)])))"
    unfolding ab_def L_def
    by (simp only: render_bonds_def r0 r1 sum.case Let_def zip_bond_ends assms(1) if_True)
  have fl: "filter (\<lambda>p. (\<lambda>(a, b). vnorm (vsub a b)) p < L / 2) ab =
            map (bond_ends frame) (filter (\<lambda>b. bond_length frame b < L / 2) ?g)"
    by (simp add: ab_def filter_map comp_def bond_ends_def bond_length_def)
  show ?thesis
    using fl by (simp only: rb filter_by_index_map L_def)
qed

lemma sqrt_25: "sqrt 25 = 5"
  by (rule real_sqrt_unique) simp_all

lemma sqrt_16: "sqrt 16 = 4"
  by (rule real_sqrt_unique) simp_all

theorem render_bonds_cutoff_witness:
  "0 < bonds_N example_frame
   \<and> list_all (\<lambda>b. fst b < length (particles_position example_frame)
                    \<and> snd b < length (particles_position example_frame))
         (bonds_group example_frame)
   \<and> render_bonds example_frame = Inr (Some [((0, 0, 0), (-4, 0, 0))])"
proof -
  have h1: "0 < bonds_N example_frame" by (simp add: example_frame_def)
  have h2: "\<forall>b\<in>set (bonds_group example_frame).
         fst b < length (particles_position example_frame)
         \<and> snd b < length (particles_position example_frame)"
    by (simp add: example_frame_def)
  have l1: "bond_length example_frame (0, Suc 0) = 5"
    by (simp add: bond_length_def example_frame_def vnorm_def sumsq_def sqrt_25)
  have l2: "bond_length example_frame (0, 2) = 4"
    by (simp add: bond_length_def example_frame_def vnorm_def sumsq_def sqrt_16)
  have g: "bonds_group example_frame = [(0, 1), (0, 2)]" by (simp add: example_frame_def)
  have e: "bond_ends example_frame (0, 2) = ((0, 0, 0), (-4, 0, 0))"
    by (simp add: bond_ends_def example_frame_def)
  have L: "Lx (configuration_box example_frame) = 10" by (simp add: example_frame_def)
  have h2': "list_all (\<lambda>b. fst b < length (particles_position example_frame)
                    \<and> snd b < length (particles_position example_frame))
         (bonds_group example_frame)"
    using h2 by (simp only: list_all_iff)
  have r: "render_bonds example_frame = Inr (Some [((0, 0, 0), (-4, 0, 0))])"
    using render_bonds_cutoff [OF h1 h2] by (simp add: g l1 l2 e L)
  show ?thesis
    using h1 h2' r by (intro conjI)
qed


subsection \<open>C5: the averaged velocity field\<close>

lemma foldl_map2_add:
  fixes a :: "real list"
  assumes "\<forall>x\<in>set xss. length x = length a"
  shows "foldl (map2 (+)) a xss =
         map (\<lambda>j. a ! j + sum_list (map (\<lambda>x. x ! j) xss)) [0..<length a]"
  using assms
proof (induction xss arbitrary: a)
  case Nil
  then show ?case by (simp add: map_nth)
next
  case (Cons x xss)
  have lx: "length x = length a" using Cons.prems by simp
  have l2: "length (map2 (+) a x) = length a" using lx by simp
  have "\<forall>y\<in>set xss. length y = length (map2 (+) a x)" using Cons.prems l2 by simp
  from Cons.IH [OF this]
  have "foldl (map2 (+)) (map2 (+) a x) xss =
        map (\<lambda>j. map2 (+) a x ! j + sum_list (map (\<lambda>y. y ! j) xss)) [0..<length a]"
    by (simp only: l2)
  also have "\<dots> = map (\<lambda>j. a ! j + sum_list (map (\<lambda>y. y ! j) (x # xss))) [0..<length a]"
    using lx by (intro map_cong refl) (simp add: algebra_simps)
  finally show ?case by simp
qed

lemma sampled_field_shift:
  "sampled_field E (run E num_steps_per_sample s) k = sampled_field E s (Suc k)"
  by (simp add: sampled_field_def funpow_swap1)

lemma upt_shift: "[Suc 0..<Suc (Suc n)] = Suc 0 # map Suc [Suc 0..<Suc n]"
  by (simp add: upt_conv_Cons map_Suc_upt del: upt_Suc)

lemma velocity_loop_accumulate:
  assumes "i \<noteq> 0"
    and "\<forall>k\<in>{1..n}. shape (sampled_field E s k) = shape a"
  shows "velocity_loop E n i (Some a) s =
         Inr (Some (a\<lparr>flat := foldl (map2 (+)) (flat a)
                               (map (\<lambda>k. flat (sampled_field E s k)) [1..<Suc n])\<rparr>),
              (run E num_steps_per_sample ^^ n) s)"
  using assms
proof (induction n arbitrary: i a s)
  case 0
  then show ?case by simp
next
  case (Suc n)
  let ?s' = "run E num_steps_per_sample s"
  let ?a' = "a\<lparr>flat := map2 (+) (flat a) (flat (velocity_field_velocities E ?s'))\<rparr>"
  have s1: "velocity_field_velocities E ?s' = sampled_field E s 1"
    by (simp add: sampled_field_def)
  have sh: "shape (velocity_field_velocities E ?s') = shape a"
    using Suc.prems(2) s1 by simp
  have add: "np_iadd a (velocity_field_velocities E ?s') = Inr ?a'"
    using sh by (simp add: np_iadd_def)
  have step: "velocity_loop E (Suc n) i (Some a) s = velocity_loop E n (Suc i) (Some ?a') ?s'"
    using Suc.prems(1) add by (simp add: Let_def)
  have rest: "\<forall>k\<in>{1..n}. shape (sampled_field E ?s' k) = shape ?a'"
    using Suc.prems(2) by (simp add: sampled_field_shift)
  have ih: "velocity_loop E n (Suc i) (Some ?a') ?s' =
         Inr (Some (?a'\<lparr>flat := foldl (map2 (+)) (flat ?a')
                               (map (\<lambda>k. flat (sampled_field E ?s' k)) [1..<Suc n])\<rparr>),
              (run E num_steps_per_sample ^^ n) ?s')"
    by (rule Suc.IH [OF _ rest]) simp
  have lst: "map (\<lambda>k. flat (sampled_field E s k)) [1..<Suc (Suc n)] =
             flat (sampled_field E s 1) # map (\<lambda>k. flat (sampled_field E ?s' k)) [1..<Suc n]"
    using upt_shift [of n] by (simp add: sampled_field_shift comp_def del: upt_Suc)
  show ?case
    unfolding step ih lst by (simp add: s1 funpow_swap1)
qed

lemma map2_add_zeros:
  fixes xs :: "real list"
  shows "map2 (+) (replicate (length xs) 0) xs = xs"
  by (simp add: list_eq_iff_nth_eq)

lemma samples_Suc:
  "samples E s (Suc n) =
   sampled_field E s 1 #
   map (sampled_field E (run E num_steps_per_sample s)) [1..<Suc n]"
  using upt_shift [of n]
  by (simp add: samples_def sampled_field_shift comp_def del: upt_Suc)

text \<open>
  C5. After the sampling loop with \<open>num_samples \<ge> 1\<close> (the sampled arrays all of one
  shape), \<open>avg_velocity_field\<close> is the arithmetic mean of the \<open>num_samples\<close> sampled
  velocity-field arrays, their element-wise sum over \<open>num_samples\<close>; the accumulator has
  the shape of the first sample, with which it is created in the first iteration. The
  engine has then run \<open>num_samples\<close> times.
\<close>

theorem average_velocity_field_mean:
  assumes "1 \<le> num_samples"
    and "same_shapes (samples E s num_samples)"
  shows "average_velocity_field E num_samples s =
           Inr (\<lparr>shape = shape (sampled_field E s 1),
                 flat = elementwise_mean (samples E s num_samples)\<rparr>,
                (run E num_steps_per_sample ^^ num_samples) s)"
proof -
  obtain n where n: "num_samples = Suc n"
    using assms(1) by (cases num_samples) simp_all
  let ?s' = "run E num_steps_per_sample s"
  let ?f1 = "sampled_field E s 1"
  let ?rest = "map (sampled_field E ?s') [1..<Suc n]"
  have smp: "samples E s num_samples = ?f1 # ?rest"
    by (simp only: n samples_Suc)
  have ws1: "well_shaped ?f1"
    using assms(2) by (simp add: smp same_shapes_def)
  have all: "\<forall>a\<in>set ?rest. well_shaped a \<and> shape a = shape ?f1"
    using assms(2) by (simp add: smp same_shapes_def list_all_iff)
  have f1: "velocity_field_velocities E ?s' = ?f1"
    by (simp add: sampled_field_def)
  let ?a1 = "\<lparr>shape = shape ?f1, flat = flat ?f1\<rparr>"
  have first: "np_iadd (np_zeros (shape ?f1)) ?f1 = Inr ?a1"
    using ws1 map2_add_zeros [of "flat ?f1"]
    by (simp add: np_iadd_def np_zeros_def well_shaped_def)
  have step: "velocity_loop E (Suc n) 0 None s = velocity_loop E n (Suc 0) (Some ?a1) ?s'"
    using first by (simp add: Let_def f1)
  have shapes: "\<forall>k\<in>{1..n}. shape (sampled_field E ?s' k) = shape ?a1"
    using all by auto
  have loop: "velocity_loop E n (Suc 0) (Some ?a1) ?s' =
         Inr (Some (?a1\<lparr>flat := foldl (map2 (+)) (flat ?a1)
                               (map (\<lambda>k. flat (sampled_field E ?s' k)) [1..<Suc n])\<rparr>),
              (run E num_steps_per_sample ^^ n) ?s')"
    by (rule velocity_loop_accumulate [OF _ shapes]) simp
  have lens: "\<forall>x\<in>set (map flat ?rest). length x = length (flat ?f1)"
    using all ws1 by (auto simp: well_shaped_def)
  have acc: "foldl (map2 (+)) (flat ?f1) (map flat ?rest) =
             map (\<lambda>j. flat ?f1 ! j + sum_list (map (\<lambda>x. x ! j) (map flat ?rest)))
               [0..<length (flat ?f1)]"
    by (rule foldl_map2_add [OF lens])
  have mean: "map (\<lambda>x. x / real num_samples) (foldl (map2 (+)) (flat ?f1) (map flat ?rest)) =
              elementwise_mean (samples E s num_samples)"
    unfolding acc smp elementwise_mean_def
    by (simp add: n comp_def)
  have "average_velocity_field E num_samples s =
        Inr (?a1\<lparr>flat := map (\<lambda>x. x / real num_samples)
                            (foldl (map2 (+)) (flat ?f1) (map flat ?rest))\<rparr>,
             (run E num_steps_per_sample ^^ n) ?s')"
    unfolding average_velocity_field_def n step loop
    by (simp add: comp_def n)
  then show ?thesis
    unfolding mean by (simp add: n funpow_swap1)
qed

lemma toy_samples:
  "samples toy_engine 0 2 = [\<lparr>shape = [2], flat = [10, 1]\<rparr>, \<lparr>shape = [2], flat = [20, 1]\<rparr>]"
  by (simp add: samples_def sampled_field_def toy_engine_def num_steps_per_sample_def
      upt_conv_Cons numeral_2_eq_2)

theorem average_velocity_field_mean_witness:
  "(1::nat) \<le> 2 \<and> same_shapes (samples toy_engine 0 2)
   \<and> average_velocity_field toy_engine 2 0 = Inr (\<lparr>shape = [2], flat = [15, 1]\<rparr>, 20)"
proof -
  have h1: "(1::nat) \<le> 2" by simp
  have h2: "same_shapes (samples toy_engine 0 2)"
    by (simp add: toy_samples same_shapes_def well_shaped_def)
  have m: "elementwise_mean (samples toy_engine 0 2) = [15, 1]"
    unfolding elementwise_mean_def toy_samples by (simp add: upt_conv_Cons)
  have f: "sampled_field toy_engine 0 1 = \<lparr>shape = [2], flat = [10, 1]\<rparr>"
    by (simp add: sampled_field_def toy_engine_def num_steps_per_sample_def)
  have r: "(run toy_engine num_steps_per_sample ^^ 2) 0 = 20"
    by (simp add: toy_engine_def num_steps_per_sample_def numeral_2_eq_2)
  have "average_velocity_field toy_engine 2 0 = Inr (\<lparr>shape = [2], flat = [15, 1]\<rparr>, 20)"
    using average_velocity_field_mean [OF h1 h2] by (simp only: m f r ndarray.simps)
  then show ?thesis using h1 h2 by (intro conjI)
qed


subsection \<open>C3: the diffusion samples\<close>

lemma map2_by_index:
  assumes "length xs = length ys"
  shows "map2 f xs ys = map (\<lambda>j. f (xs ! j) (ys ! j)) [0..<length ys]"
proof (rule nth_equalityI)
  show "length (map2 f xs ys) = length (map (\<lambda>j. f (xs ! j) (ys ! j)) [0..<length ys])"
    using assms by simp
next
  fix i
  assume "i < length (map2 f xs ys)"
  then show "map2 f xs ys ! i = map (\<lambda>j. f (xs ! j) (ys ! j)) [0..<length ys] ! i"
    using assms by simp
qed

lemma msd_of_rows:
  assumes "length (mpcd_position snap) = length r0" and "r0 \<noteq> []"
  shows "np_sub_rows (mpcd_position snap) r0 = Inr (map2 vsub (mpcd_position snap) r0)"
    and "np_mean (map sumsq (map (wrap (snapshot_box snap)) (map2 vsub (mpcd_position snap) r0)))
         = Some (msd wrap snap r0)"
proof -
  show "np_sub_rows (mpcd_position snap) r0 = Inr (map2 vsub (mpcd_position snap) r0)"
    using assms(1) by (simp add: np_sub_rows_def)
  have "map sumsq (map (wrap (snapshot_box snap)) (map2 vsub (mpcd_position snap) r0)) =
        map (\<lambda>j. sumsq (wrap (snapshot_box snap) (vsub (mpcd_position snap ! j) (r0 ! j))))
          [0..<length r0]"
    unfolding map2_by_index [OF assms(1)] by (simp add: comp_def)
  then show "np_mean (map sumsq (map (wrap (snapshot_box snap)) (map2 vsub (mpcd_position snap) r0)))
         = Some (msd wrap snap r0)"
    using assms(2) by (simp add: np_mean_def msd_def arith_mean_def)
qed

lemma diffusion_sample_value:
  assumes dt: "integrator_dt E \<noteq> 0"
    and keep: "keeps_particles E"
    and ne: "mpcd_position (get_snapshot E s) \<noteq> []"
  shows "diffusion_sample wrap E s =
         Inr (Some (D_sample wrap E s), run E (sample_steps E) (run E (wait_steps E) s))"
proof -
  let ?r0 = "mpcd_position (get_snapshot E s)"
  let ?t1 = "run E (wait_steps E) s"
  let ?t2 = "run E (sample_steps E) ?t1"
  have n1: "num_steps wait_time (integrator_dt E) = Inr (wait_steps E)"
    using dt by (simp add: num_steps_def wait_steps_def)
  have n2: "num_steps sample_time (integrator_dt E) = Inr (sample_steps E)"
    using dt by (simp add: num_steps_def sample_steps_def)
  have l1: "length (mpcd_position (get_snapshot E ?t1)) = length ?r0"
    using keep by (simp add: keeps_particles_def)
  have l2: "length (mpcd_position (get_snapshot E ?t2)) = length ?r0"
    using keep by (simp add: keeps_particles_def)
  have st: "6 * sample_time \<noteq> 0" by (simp add: sample_time_def)
  show ?thesis
    unfolding diffusion_sample_def Let_def n1 n2 sum.case
      msd_of_rows(1) [OF l1 ne] msd_of_rows(1) [OF l2 ne]
      msd_of_rows(2) [OF l1 ne] msd_of_rows(2) [OF l2 ne]
    using st by (simp add: np_fsub_def np_fdiv_def np_div_def D_sample_def Let_def)
qed

lemma sample_start_Suc:
  "sample_start E (run E (sample_steps E) (run E (wait_steps E) s)) i = sample_start E s (Suc i)"
  using funpow_swap1 [of "\<lambda>t. run E (sample_steps E) (run E (wait_steps E) t)" i s]
  by (simp add: sample_start_def)

lemma keeps_particles_sample_start:
  assumes "keeps_particles E"
  shows "length (mpcd_position (get_snapshot E (sample_start E s i))) =
         length (mpcd_position (get_snapshot E s))"
proof (induction i)
  case 0
  then show ?case by (simp add: sample_start_def)
next
  case (Suc i)
  have "length (mpcd_position (get_snapshot E (sample_start E s (Suc i)))) =
        length (mpcd_position (get_snapshot E (sample_start E s i)))"
    using assms by (simp add: sample_start_def keeps_particles_def)
  then show ?case using Suc.IH by simp
qed

lemma diffusion_loop_values:
  assumes dt: "integrator_dt E \<noteq> 0"
    and keep: "keeps_particles E"
    and ne: "mpcd_position (get_snapshot E s) \<noteq> []"
    and fits: "i + k \<le> length D"
  shows "diffusion_loop wrap E k i D s =
         Inr (take i D @ map (\<lambda>j. Some (D_sample wrap E (sample_start E s j))) [0..<k]
                @ drop (i + k) D,
              sample_start E s k)"
  using ne fits
proof (induction k arbitrary: i D s)
  case 0
  then show ?case by (simp add: sample_start_def)
next
  case (Suc k)
  let ?s' = "run E (sample_steps E) (run E (wait_steps E) s)"
  let ?d = "Some (D_sample wrap E s)"
  have body: "diffusion_sample wrap E s = Inr (?d, ?s')"
    by (rule diffusion_sample_value [OF dt keep Suc.prems(1)])
  have "length (mpcd_position (get_snapshot E ?s')) = length (mpcd_position (get_snapshot E s))"
    using keeps_particles_sample_start [OF keep, of s 1] by (simp add: sample_start_def)
  then have ne': "mpcd_position (get_snapshot E ?s') \<noteq> []"
    using Suc.prems(1) by (metis length_0_conv)
  have fits': "Suc i + k \<le> length (D[i := ?d])"
    using Suc.prems(2) by simp
  have ih: "diffusion_loop wrap E k (Suc i) (D[i := ?d]) ?s' =
         Inr (take (Suc i) (D[i := ?d])
                @ map (\<lambda>j. Some (D_sample wrap E (sample_start E ?s' j))) [0..<k]
                @ drop (Suc i + k) (D[i := ?d]),
              sample_start E ?s' k)"
    by (rule Suc.IH [OF ne' fits'])
  have i_lt: "i < length D" using Suc.prems(2) by simp
  have tk: "take (Suc i) (D[i := ?d]) = take i D @ [?d]"
    using i_lt by (simp add: take_Suc_conv_app_nth)
  have dr: "drop (Suc i + k) (D[i := ?d]) = drop (i + Suc k) D"
    by simp
  have mp: "map (\<lambda>j. Some (D_sample wrap E (sample_start E s j))) [0..<Suc k] =
            ?d # map (\<lambda>j. Some (D_sample wrap E (sample_start E ?s' j))) [0..<k]"
    by (simp add: map_upt_Suc sample_start_Suc del: upt_Suc) (simp add: sample_start_def)
  have "diffusion_loop wrap E (Suc k) i D s =
        diffusion_loop wrap E k (Suc i) (D[i := ?d]) ?s'"
    by (simp add: body)
  then show ?case
    unfolding ih tk dr mp by (simp add: sample_start_Suc)
qed

text \<open>
  C3. In the diffusion measurement (time step not zero, an engine that keeps the
  number of particles, at least one particle and one sample), every sample is
  \<open>D[i] = (msd2 - msd1) / (6 * sample_time)\<close>, where \<open>msd1\<close> and \<open>msd2\<close> are the means over
  all particles of the squared wrapped displacement of the positions \<open>r1\<close> (after the
  waiting time) and \<open>r2\<close> (after the sampling time) from the positions \<open>r0\<close> recorded at
  the start of the sample; \<open>D_sim\<close> is the arithmetic mean of the \<open>num_samples\<close> values
  of \<open>D\<close>.
\<close>

theorem measure_diffusion_samples:
  assumes "integrator_dt E \<noteq> 0"
    and "keeps_particles E"
    and "mpcd_position (get_snapshot E s) \<noteq> []"
    and "1 \<le> num_samples"
  shows "measure_diffusion wrap E num_samples s =
           Inr (map (\<lambda>i. Some (D_sample wrap E (sample_start E s i))) [0..<num_samples],
                Some (arith_mean
                        (map (\<lambda>i. D_sample wrap E (sample_start E s i)) [0..<num_samples])),
                sample_start E s num_samples)"
proof -
  let ?vals = "map (\<lambda>i. D_sample wrap E (sample_start E s i)) [0..<num_samples]"
  have fits: "0 + num_samples \<le> length (replicate num_samples (Some (0::real)))"
    by simp
  have loop: "diffusion_loop wrap E num_samples 0 (replicate num_samples (Some 0)) s =
              Inr (map Some ?vals, sample_start E s num_samples)"
    using diffusion_loop_values [OF assms(1) assms(2) assms(3) fits, of wrap]
    by (simp add: comp_def)
  have ne: "?vals \<noteq> []" using assms(4) by simp
  have mean: "np_mean_f (map Some ?vals) = Some (arith_mean ?vals)"
    using ne by (simp only: np_mean_f_def finite_values_Some option.case np_mean_def
        arith_mean_def if_False)
  show ?thesis
    unfolding measure_diffusion_def loop
    by (simp only: sum.case prod.case mean) (simp add: comp_def)
qed

lemma toy_steps: "wait_steps toy_engine = 2" "sample_steps toy_engine = 2"
  by (simp_all add: wait_steps_def sample_steps_def toy_engine_def wait_time_def
      sample_time_def np_round_def)

lemma toy_sample_start: "sample_start toy_engine 0 0 = 0" "sample_start toy_engine 0 (Suc 0) = 4"
  "sample_start toy_engine 0 2 = 8"
  by (simp_all add: sample_start_def toy_steps numeral_2_eq_2) (simp_all add: toy_engine_def)

lemma toy_D_sample: "D_sample (\<lambda>box v. v) toy_engine 0 = 5 / 2"
  "D_sample (\<lambda>box v. v) toy_engine 4 = 5 / 2"
  unfolding D_sample_def Let_def toy_steps msd_def
  by (simp_all add: toy_engine_def arith_mean_def sumsq_def sample_time_def upt_conv_Cons)

theorem measure_diffusion_samples_witness:
  "integrator_dt toy_engine \<noteq> 0 \<and> keeps_particles toy_engine
   \<and> mpcd_position (get_snapshot toy_engine 0) \<noteq> [] \<and> (1::nat) \<le> 2
   \<and> measure_diffusion (\<lambda>box v. v) toy_engine 2 0 =
       Inr ([Some (5 / 2), Some (5 / 2)], Some (5 / 2), 8)"
proof -
  have h1: "integrator_dt toy_engine \<noteq> 0" by (simp add: toy_engine_def)
  have h2: "keeps_particles toy_engine" by (simp add: keeps_particles_def toy_engine_def)
  have h3: "mpcd_position (get_snapshot toy_engine 0) \<noteq> []" by (simp add: toy_engine_def)
  have h4: "(1::nat) \<le> 2" by simp
  have u: "[0..<2] = [0, Suc 0]" by (simp add: upt_conv_Cons)
  have r: "measure_diffusion (\<lambda>box v. v) toy_engine 2 0 =
       Inr ([Some (5 / 2), Some (5 / 2)], Some (5 / 2), 8)"
    using measure_diffusion_samples [OF h1 h2 h3 h4, of "\<lambda>box v. v"]
    unfolding u by (simp add: toy_sample_start toy_D_sample arith_mean_def)
  show ?thesis using h1 h2 h3 h4 r by (intro conjI)
qed


subsection \<open>C7: the loops change the simulation through run only\<close>

lemma diffusion_sample_state:
  assumes "diffusion_sample wrap E s = Inr (d, s')"
  shows "s' = run E (sample_steps E) (run E (wait_steps E) s)"
  using assms
  by (auto simp: diffusion_sample_def Let_def num_steps_def wait_steps_def sample_steps_def
      split: if_splits sum.splits)

lemma diffusion_loop_state:
  assumes "diffusion_loop wrap E k i D s = Inr (D', s')"
  shows "s' = sample_start E s k"
  using assms
proof (induction k arbitrary: i D s)
  case 0
  then show ?case by (simp add: sample_start_def)
next
  case (Suc k)
  from Suc.prems obtain d t where
    body: "diffusion_sample wrap E s = Inr (d, t)" and
    rest: "diffusion_loop wrap E k (Suc i) (D[i := d]) t = Inr (D', s')"
    by (auto split: sum.splits)
  have t: "t = run E (sample_steps E) (run E (wait_steps E) s)"
    by (rule diffusion_sample_state [OF body])
  have "s' = sample_start E t k" by (rule Suc.IH [OF rest])
  then show ?case by (simp add: t sample_start_Suc)
qed

lemma velocity_loop_state:
  assumes "velocity_loop E k i avg s = Inr (avg', s')"
  shows "s' = (run E num_steps_per_sample ^^ k) s"
  using assms
proof (induction k arbitrary: i avg s)
  case 0
  then show ?case by simp
next
  case (Suc k)
  let ?t = "run E num_steps_per_sample s"
  from Suc.prems obtain a where
    rest: "velocity_loop E k (Suc i) (Some a) ?t = Inr (avg', s')"
    by (auto simp: Let_def split: option.splits sum.splits if_splits)
  have "s' = (run E num_steps_per_sample ^^ k) ?t" by (rule Suc.IH [OF rest])
  then show ?case by (simp add: funpow_swap1)
qed

text \<open>
  C7. In the measurement loops the notebooks' own code leaves the state of the
  simulation unchanged: an iteration of the diffusion loop takes its three snapshots
  at the state it starts in, at that state after one call of \<open>run\<close>, and after a second
  call, and ends in that last state; whenever the diffusion loop or the velocity-field
  loop completes, the state of the engine is the starting state with the calls of
  \<open>run\<close> applied in order, and nothing else.
\<close>

theorem loops_change_state_by_run_only:
  "(diffusion_sample wrap E s = Inr (d, s1) \<longrightarrow>
      s1 = run E (sample_steps E) (run E (wait_steps E) s))
   \<and> (measure_diffusion wrap E num_samples s = Inr (D, D_sim, s2) \<longrightarrow>
      s2 = ((\<lambda>t. run E (sample_steps E) (run E (wait_steps E) t)) ^^ num_samples) s)
   \<and> (average_velocity_field E num_samples s = Inr (avg, s3) \<longrightarrow>
      s3 = (run E num_steps_per_sample ^^ num_samples) s)"
proof (intro conjI impI)
  assume "diffusion_sample wrap E s = Inr (d, s1)"
  then show "s1 = run E (sample_steps E) (run E (wait_steps E) s)"
    by (rule diffusion_sample_state)
next
  assume "measure_diffusion wrap E num_samples s = Inr (D, D_sim, s2)"
  then have "diffusion_loop wrap E num_samples 0 (replicate num_samples (Some 0)) s = Inr (D, s2)"
    by (auto simp: measure_diffusion_def split: sum.splits)
  then have "s2 = sample_start E s num_samples" by (rule diffusion_loop_state)
  then show "s2 = ((\<lambda>t. run E (sample_steps E) (run E (wait_steps E) t)) ^^ num_samples) s"
    by (simp add: sample_start_def)
next
  assume "average_velocity_field E num_samples s = Inr (avg, s3)"
  then obtain a where "velocity_loop E num_samples 0 None s = Inr (a, s3)"
    by (auto simp: average_velocity_field_def split: sum.splits option.splits)
  then show "s3 = (run E num_steps_per_sample ^^ num_samples) s"
    by (rule velocity_loop_state)
qed

lemma toy_average_run:
  "average_velocity_field toy_engine 2 0 = Inr (\<lparr>shape = [2], flat = [15, 1]\<rparr>, 20)"
  by (simp add: average_velocity_field_def numeral_2_eq_2 Let_def np_iadd_def np_zeros_def
      toy_engine_def num_steps_per_sample_def)

lemma toy_diffusion_sample:
  "diffusion_sample (\<lambda>box v. v) toy_engine t = Inr (Some (5 / 2), t + 4)"
  by (simp add: diffusion_sample_def Let_def num_steps_def np_round_def wait_time_def
      sample_time_def toy_engine_def np_sub_rows_def np_mean_def sumsq_def np_fsub_def
      np_fdiv_def np_div_def algebra_simps power2_eq_square)

lemma toy_diffusion_run:
  "measure_diffusion (\<lambda>box v. v) toy_engine 2 0 =
       Inr ([Some (5 / 2), Some (5 / 2)], Some (5 / 2), 8)"
  by (simp add: measure_diffusion_def numeral_2_eq_2 toy_diffusion_sample np_mean_f_def
      np_mean_def)

theorem loops_change_state_by_run_only_witness:
  "diffusion_sample (\<lambda>box v. v) toy_engine 0 = Inr (Some (5 / 2), 4)
   \<and> 4 = run toy_engine (sample_steps toy_engine) (run toy_engine (wait_steps toy_engine) 0)
   \<and> measure_diffusion (\<lambda>box v. v) toy_engine 2 0 =
       Inr ([Some (5 / 2), Some (5 / 2)], Some (5 / 2), 8)
   \<and> 8 = ((\<lambda>t. run toy_engine (sample_steps toy_engine)
                 (run toy_engine (wait_steps toy_engine) t)) ^^ 2) 0
   \<and> average_velocity_field toy_engine 2 0 = Inr (\<lparr>shape = [2], flat = [15, 1]\<rparr>, 20)
   \<and> 20 = (run toy_engine num_steps_per_sample ^^ 2) 0"
proof -
  have h1: "diffusion_sample (\<lambda>box v. v) toy_engine 0 = Inr (Some (5 / 2), 4)"
    using toy_diffusion_sample [of 0] by simp
  note h2 = toy_diffusion_run
  note h3 = toy_average_run
  note t = loops_change_state_by_run_only [of "\<lambda>box v. v" toy_engine 0 "Some (5 / 2)" 4 2
      "[Some (5 / 2), Some (5 / 2)]" "Some (5 / 2)" 8 "\<lparr>shape = [2], flat = [15, 1]\<rparr>" 20]
  show ?thesis
    using t h1 h2 h3 by (intro conjI) (simp_all only: simp_thms)
qed

end
